theory Spec2Isabelle
  imports Complex_Main "HOL-Library.AList"
begin

section \<open>Conventions\<close>

text \<open>
  The TypeScript sources are embedded function by function. A JavaScript \<open>number\<close> is
  modelled as an exact \<^typ>\<open>real\<close> (rounding and overflow of IEEE doubles are outside
  the model); \<open>Date.now()\<close> is an \<^typ>\<open>int\<close> of milliseconds that every operation
  receives as an argument. A \<open>Map\<close> whose iteration order matters is an association
  list maintained with \<^const>\<open>AList.update\<close> (overwrite in place, otherwise append),
  which is the insertion order of a JavaScript \<open>Map\<close>; other maps are partial functions.
  A thrown exception is \<open>Inl\<close> of the sum type, and a loop that waits on the clock takes
  the list of later clock readings and yields \<open>None\<close> when the list runs out before the
  loop ends.
\<close>

datatype error = RateLimitExceeded | ExternalError string

section \<open>RateLimiter (lib/rate-limiter/RateLimiter.ts)\<close>

record TokenBucket =
  tokens :: real
  lastRefill :: int

record RateLimiterConfig =
  maxTokens :: real
  refillRate :: real
  refillInterval :: int

record RateLimiterStats =
  totalRequests :: real
  acceptedRequests :: real
  rejectedRequests :: real
  currentTokens :: real
  lastRefillTime :: real

record RateLimiter =
  buckets :: "string \<rightharpoonup> TokenBucket"
  config_rl :: RateLimiterConfig
  stats_rl :: "string \<rightharpoonup> RateLimiterStats"

datatype stats_field =
  TotalRequests | AcceptedRequests | RejectedRequests | CurrentTokens | LastRefillTime

definition refillBucket :: "RateLimiterConfig \<Rightarrow> int \<Rightarrow> TokenBucket \<Rightarrow> TokenBucket" where
  "refillBucket cfg now bucket =
     (let timePassed = now - lastRefill bucket;
          tokensToAdd = (real_of_int timePassed / 1000) * refillRate cfg
      in bucket\<lparr>tokens := min (maxTokens cfg) (tokens bucket + tokensToAdd),
                lastRefill := now\<rparr>)"

definition initStats :: "string \<Rightarrow> int \<Rightarrow> RateLimiter \<Rightarrow> RateLimiter" where
  "initStats key now rl =
     rl\<lparr>stats_rl := (stats_rl rl)(key \<mapsto>
        \<lparr>totalRequests = 0, acceptedRequests = 0, rejectedRequests = 0,
         currentTokens = maxTokens (config_rl rl), lastRefillTime = real_of_int now\<rparr>)\<rparr>"

fun getField :: "stats_field \<Rightarrow> RateLimiterStats \<Rightarrow> real" where
  "getField TotalRequests st = totalRequests st"
| "getField AcceptedRequests st = acceptedRequests st"
| "getField RejectedRequests st = rejectedRequests st"
| "getField CurrentTokens st = currentTokens st"
| "getField LastRefillTime st = lastRefillTime st"

fun setField :: "stats_field \<Rightarrow> real \<Rightarrow> RateLimiterStats \<Rightarrow> RateLimiterStats" where
  "setField TotalRequests v st = st\<lparr>totalRequests := v\<rparr>"
| "setField AcceptedRequests v st = st\<lparr>acceptedRequests := v\<rparr>"
| "setField RejectedRequests v st = st\<lparr>rejectedRequests := v\<rparr>"
| "setField CurrentTokens v st = st\<lparr>currentTokens := v\<rparr>"
| "setField LastRefillTime v st = st\<lparr>lastRefillTime := v\<rparr>"

definition updateStats :: "string \<Rightarrow> stats_field \<Rightarrow> real option \<Rightarrow> RateLimiter \<Rightarrow> RateLimiter" where
  "updateStats key field val rl =
     (case stats_rl rl key of
        None \<Rightarrow> rl
      | Some st \<Rightarrow>
          rl\<lparr>stats_rl := (stats_rl rl)(key \<mapsto>
             (case val of
                Some v \<Rightarrow> setField field v st
              | None \<Rightarrow> setField field (getField field st + 1) st))\<rparr>)"

text \<open>
  The \<open>while (true)\<close> loop of \<open>acquire\<close>, run on the bucket object. \<open>now\<close> is the
  clock reading of the current iteration and \<open>polls\<close> the readings after each sleep.
\<close>

fun acquire_loop ::
  "RateLimiterConfig \<Rightarrow> real \<Rightarrow> int \<Rightarrow> int \<Rightarrow> int \<Rightarrow> int list \<Rightarrow> TokenBucket
     \<Rightarrow> (bool \<times> TokenBucket) option" where
  "acquire_loop cfg cost timeout startTime now polls bucket =
     (let b = refillBucket cfg now bucket in
      if tokens b \<ge> cost then Some (True, b\<lparr>tokens := tokens b - cost\<rparr>)
      else if timeout = 0 \<or> now - startTime \<ge> timeout then Some (False, b)
      else (case polls of
              [] \<Rightarrow> None
            | t # ts \<Rightarrow> acquire_loop cfg cost timeout startTime t ts b))"

definition acquire ::
  "string \<Rightarrow> real \<Rightarrow> int \<Rightarrow> int \<Rightarrow> int list \<Rightarrow> RateLimiter \<Rightarrow> (bool \<times> RateLimiter) option" where
  "acquire key cost timeout now polls rl =
     (let (bucket, rl0) =
            (case buckets rl key of
               Some b \<Rightarrow> (b, rl)
             | None \<Rightarrow>
                 (let b = \<lparr>tokens = maxTokens (config_rl rl), lastRefill = now\<rparr>
                  in (b, initStats key now (rl\<lparr>buckets := (buckets rl)(key \<mapsto> b)\<rparr>))));
          rl1 = updateStats key TotalRequests None rl0
      in case acquire_loop (config_rl rl) cost timeout now now polls bucket of
           None \<Rightarrow> None
         | Some (True, b) \<Rightarrow>
             Some (True,
               updateStats key CurrentTokens (Some (tokens b))
                 (updateStats key AcceptedRequests None
                    (rl1\<lparr>buckets := (buckets rl1)(key \<mapsto> b)\<rparr>)))
         | Some (False, b) \<Rightarrow>
             Some (False,
               updateStats key RejectedRequests None
                 (rl1\<lparr>buckets := (buckets rl1)(key \<mapsto> b)\<rparr>)))"

text \<open>The callback of the refill timer (\<open>startRefill\<close>): every bucket is refilled.\<close>

definition refillAll :: "int \<Rightarrow> RateLimiter \<Rightarrow> RateLimiter" where
  "refillAll now rl =
     rl\<lparr>buckets := (\<lambda>k. map_option (refillBucket (config_rl rl) now) (buckets rl k))\<rparr>"

declare acquire_loop.simps [simp del]

text \<open>
  \<open>acquireBatch\<close>. The \<open>results\<close> map is an association list; \<open>requests.every\<close>
  stops at the first request that cannot be served and refills the buckets it visits.
\<close>

type_synonym batch_results = "(string \<times> bool) list"

fun check_all :: "int \<Rightarrow> (string \<times> real) list \<Rightarrow> RateLimiter \<Rightarrow> bool \<times> RateLimiter" where
  "check_all now [] rl = (True, rl)"
| "check_all now ((key, cost) # rest) rl =
     (case buckets rl key of
        None \<Rightarrow> check_all now rest rl
      | Some bucket \<Rightarrow>
          (let b = refillBucket (config_rl rl) now bucket;
               rl' = rl\<lparr>buckets := (buckets rl)(key \<mapsto> b)\<rparr>
           in if tokens b \<ge> cost then check_all now rest rl' else (False, rl')))"

text \<open>The \<open>for\<close> loop of the admitted branch: every request is acquired with timeout 0.\<close>

fun acquire_each ::
  "int \<Rightarrow> (string \<times> real) list \<Rightarrow> batch_results \<Rightarrow> RateLimiter
     \<Rightarrow> (batch_results \<times> RateLimiter) option" where
  "acquire_each now [] results rl = Some (results, rl)"
| "acquire_each now ((key, cost) # rest) results rl =
     (case acquire key cost 0 now [] rl of
        None \<Rightarrow> None
      | Some (success, rl') \<Rightarrow> acquire_each now rest (AList.update key success results) rl')"

text \<open>One round of the retry branch: only successes are written to \<open>results\<close>.\<close>

fun retry_each ::
  "int \<Rightarrow> (string \<times> real) list \<Rightarrow> batch_results \<Rightarrow> RateLimiter
     \<Rightarrow> (batch_results \<times> RateLimiter) option" where
  "retry_each now [] results rl = Some (results, rl)"
| "retry_each now ((key, cost) # rest) results rl =
     (case acquire key cost 0 now [] rl of
        None \<Rightarrow> None
      | Some (success, rl') \<Rightarrow>
          retry_each now rest (if success then AList.update key True results else results) rl')"

definition has_key :: "('k \<times> 'v) list \<Rightarrow> 'k \<Rightarrow> bool" where
  "has_key m k = (map_of m k \<noteq> None)"

fun fill_false :: "(string \<times> real) list \<Rightarrow> batch_results \<Rightarrow> batch_results" where
  "fill_false [] results = results"
| "fill_false ((key, cost) # rest) results =
     fill_false rest (if has_key results key then results else AList.update key False results)"

fun all_false :: "(string \<times> real) list \<Rightarrow> batch_results \<Rightarrow> batch_results" where
  "all_false [] results = results"
| "all_false ((key, cost) # rest) results = all_false rest (AList.update key False results)"

text \<open>
  The \<open>while (Date.now() - startTime < timeout)\<close> loop; \<open>now\<close> is the reading of the
  loop test and of the round, \<open>rounds\<close> the readings after each 100 ms sleep.
\<close>

fun retry_loop ::
  "(string \<times> real) list \<Rightarrow> int \<Rightarrow> int \<Rightarrow> int \<Rightarrow> int list \<Rightarrow> batch_results \<Rightarrow> RateLimiter
     \<Rightarrow> (batch_results \<times> RateLimiter) option" where
  "retry_loop requests timeout startTime now rounds results rl =
     (if now - startTime < timeout then
        (let remaining = filter (\<lambda>(key, cost). \<not> has_key results key) requests in
         case retry_each now remaining results rl of
           None \<Rightarrow> None
         | Some (results', rl') \<Rightarrow>
             if length results' = length requests then Some (results', rl')
             else (case rounds of
                     [] \<Rightarrow> None
                   | t # ts \<Rightarrow> retry_loop requests timeout startTime t ts results' rl'))
      else Some (results, rl))"

declare retry_loop.simps [simp del]

definition acquireBatch ::
  "(string \<times> real) list \<Rightarrow> int \<Rightarrow> int \<Rightarrow> int list \<Rightarrow> RateLimiter
     \<Rightarrow> (batch_results \<times> RateLimiter) option" where
  "acquireBatch requests timeout now rounds rl =
     (let (canAcquire, rl1) = check_all now requests rl in
      if canAcquire then acquire_each now requests [] rl1
      else if timeout > 0 then
        (case retry_loop requests timeout now now rounds [] rl1 of
           None \<Rightarrow> None
         | Some (results, rl2) \<Rightarrow> Some (fill_false requests results, rl2))
      else Some (all_false requests [], rl1))"

text \<open>The constructor: no buckets and no statistics yet.\<close>

definition newRateLimiter :: "RateLimiterConfig \<Rightarrow> RateLimiter" where
  "newRateLimiter cfg = \<lparr>buckets = Map.empty, config_rl = cfg, stats_rl = Map.empty\<rparr>"

definition defaultRateLimiterConfig :: RateLimiterConfig where
  "defaultRateLimiterConfig = \<lparr>maxTokens = 100, refillRate = 10, refillInterval = 1000\<rparr>"

section \<open>SmartCache (lib/cache/SmartCache.ts)\<close>

text \<open>
  The ranking of \<open>evictLeastValuable\<close> divides by clock differences that can be zero, and
  its comparisons depend on the outcome being \<open>NaN\<close> or \<open>Infinity\<close>. These values are
  kept apart from the finite numbers; finite arithmetic stays exact.
\<close>

datatype jsnum = Fin real | PInf | NInf | NaN

definition inf_of_sign :: "real \<Rightarrow> jsnum" where
  "inf_of_sign r = (if r > 0 then PInf else if r < 0 then NInf else NaN)"

definition js_div :: "real \<Rightarrow> real \<Rightarrow> jsnum" where
  "js_div a b = (if b \<noteq> 0 then Fin (a / b) else inf_of_sign a)"

fun js_mul :: "jsnum \<Rightarrow> jsnum \<Rightarrow> jsnum" where
  "js_mul NaN y = NaN"
| "js_mul x NaN = NaN"
| "js_mul (Fin a) (Fin b) = Fin (a * b)"
| "js_mul (Fin a) PInf = inf_of_sign a"
| "js_mul (Fin a) NInf = inf_of_sign (- a)"
| "js_mul PInf (Fin b) = inf_of_sign b"
| "js_mul NInf (Fin b) = inf_of_sign (- b)"
| "js_mul PInf PInf = PInf"
| "js_mul PInf NInf = NInf"
| "js_mul NInf PInf = NInf"
| "js_mul NInf NInf = PInf"

fun js_less :: "jsnum \<Rightarrow> jsnum \<Rightarrow> bool" where
  "js_less NaN y = False"
| "js_less x NaN = False"
| "js_less (Fin a) (Fin b) = (a < b)"
| "js_less (Fin a) PInf = True"
| "js_less NInf (Fin b) = True"
| "js_less NInf PInf = True"
| "js_less x y = False"

record 'v CacheItem =
  data_item :: 'v
  timestamp_item :: int
  accessCount :: nat
  lastAccess :: int
  size_item :: nat

record CacheConfig =
  maxSize :: int
  maxAge :: int
  cleanupInterval :: int

record CacheStats =
  hitCount :: nat
  missCount :: nat
  totalSize :: int
  itemCount :: int
  oldestItem :: int
  mostAccessed :: "string \<times> nat"

record 'v SmartCache =
  cache :: "(string \<times> 'v CacheItem) list"
  config_cache :: CacheConfig
  stats_cache :: CacheStats

text \<open>
  \<open>calculateSize\<close>: \<open>stringify\<close> stands for \<open>JSON.stringify\<close>, with \<open>None\<close> when it
  throws or yields no string, which the \<open>catch\<close> turns into 1024.
\<close>

definition calculateSize :: "('v \<Rightarrow> string option) \<Rightarrow> 'v \<Rightarrow> nat" where
  "calculateSize stringify d =
     (case stringify d of Some str \<Rightarrow> length str * 2 | None \<Rightarrow> 1024)"

definition item_value :: "int \<Rightarrow> 'v CacheItem \<Rightarrow> jsnum" where
  "item_value now item =
     (let age = now - timestamp_item item;
          timeSinceLastAccess = now - lastAccess item
      in js_mul (js_div (real (accessCount item)) (real_of_int age))
                (js_div 1 (real_of_int timeSinceLastAccess)))"

fun least_valuable ::
  "int \<Rightarrow> (string \<times> 'v CacheItem) list \<Rightarrow> string option \<times> jsnum \<Rightarrow> string option \<times> jsnum" where
  "least_valuable now [] acc = acc"
| "least_valuable now ((key, item) # rest) (leastValuableKey, leastValue) =
     (if js_less (item_value now item) leastValue
      then least_valuable now rest (Some key, item_value now item)
      else least_valuable now rest (leastValuableKey, leastValue))"

text \<open>The test \<open>if (leastValuableKey)\<close> is also false for the empty string.\<close>

definition evictLeastValuable :: "int \<Rightarrow> 'v SmartCache \<Rightarrow> 'v SmartCache" where
  "evictLeastValuable now c =
     (case fst (least_valuable now (cache c) (None, PInf)) of
        None \<Rightarrow> c
      | Some key \<Rightarrow>
          if key = [] then c
          else (case map_of (cache c) key of
                  None \<Rightarrow> c
                | Some item \<Rightarrow>
                    c\<lparr>cache := AList.delete key (cache c),
                      stats_cache := (stats_cache c)
                        \<lparr>totalSize := totalSize (stats_cache c) - int (size_item item),
                         itemCount := itemCount (stats_cache c) - 1\<rparr>\<rparr>))"

text \<open>
  \<open>while (this.stats.totalSize + size > this.config.maxSize) this.evictLeastValuable()\<close>:
  one clock reading per iteration. Nothing in the loop guarantees progress, so the
  readings are its fuel.
\<close>

fun evict_loop :: "nat \<Rightarrow> int list \<Rightarrow> 'v SmartCache \<Rightarrow> 'v SmartCache option" where
  "evict_loop sz ticks c =
     (if totalSize (stats_cache c) + int sz > maxSize (config_cache c) then
        (case ticks of
           [] \<Rightarrow> None
         | t # ts \<Rightarrow> evict_loop sz ts (evictLeastValuable t c))
      else Some c)"

declare evict_loop.simps [simp del]

definition set_cache ::
  "('v \<Rightarrow> string option) \<Rightarrow> string \<Rightarrow> 'v \<Rightarrow> int list \<Rightarrow> int \<Rightarrow> 'v SmartCache
     \<Rightarrow> 'v SmartCache option" where
  "set_cache stringify key d ticks now c =
     (let sz = calculateSize stringify d in
      if int sz > maxSize (config_cache c) then Some c
      else (case evict_loop sz ticks c of
              None \<Rightarrow> None
            | Some c1 \<Rightarrow>
                (let item = \<lparr>data_item = d, timestamp_item = now, accessCount = 0,
                             lastAccess = now, size_item = sz\<rparr>;
                     st = stats_cache c1
                 in Some (c1\<lparr>cache := AList.update key item (cache c1),
                            stats_cache := st
                              \<lparr>totalSize := totalSize st + int sz,
                               itemCount := itemCount st + 1,
                               oldestItem := (if oldestItem st > now then now
                                              else oldestItem st)\<rparr>\<rparr>))))"

definition get_cache :: "string \<Rightarrow> int \<Rightarrow> 'v SmartCache \<Rightarrow> 'v option \<times> 'v SmartCache" where
  "get_cache key now c =
     (let st = stats_cache c in
      case map_of (cache c) key of
        None \<Rightarrow> (None, c\<lparr>stats_cache := st\<lparr>missCount := missCount st + 1\<rparr>\<rparr>)
      | Some item \<Rightarrow>
          if now - timestamp_item item > maxAge (config_cache c) then
            (None, c\<lparr>cache := AList.delete key (cache c),
                     stats_cache := st
                       \<lparr>totalSize := totalSize st - int (size_item item),
                        itemCount := itemCount st - 1,
                        missCount := missCount st + 1\<rparr>\<rparr>)
          else
            (let item' = item\<lparr>accessCount := accessCount item + 1, lastAccess := now\<rparr>
             in (Some (data_item item'),
                 c\<lparr>cache := AList.update key item' (cache c),
                   stats_cache := st
                     \<lparr>hitCount := hitCount st + 1,
                      mostAccessed :=
                        (if accessCount item' > snd (mostAccessed st)
                         then (key, accessCount item') else mostAccessed st)\<rparr>\<rparr>)))"

definition newSmartCache :: "CacheConfig \<Rightarrow> int \<Rightarrow> 'v SmartCache" where
  "newSmartCache cfg now =
     \<lparr>cache = [], config_cache = cfg,
      stats_cache = \<lparr>hitCount = 0, missCount = 0, totalSize = 0, itemCount = 0,
                     oldestItem = now, mostAccessed = ([], 0)\<rparr>\<rparr>"

definition defaultCacheConfig :: CacheConfig where
  "defaultCacheConfig =
     \<lparr>maxSize = 50 * 1024 * 1024, maxAge = 30 * 60 * 1000, cleanupInterval = 60 * 1000\<rparr>"

section \<open>HedgeService (lib/hedge/HedgeService.ts)\<close>

record HedgeConfig =
  creditScoreThreshold :: real
  hedgeRatio :: real
  maxHedgeAmount :: real
  minCreditScoreToClose :: real
  rebalanceInterval :: int

datatype position_status = Open | Closed

record HedgePosition =
  id_pos :: string
  openPrice :: real
  amount :: real
  timestamp_pos :: int
  creditScore :: real
  status :: position_status
  pnl :: "real option"

record MarketOrder =
  symbol :: string
  side :: string
  amount_order :: jsnum
  type_order :: string

text \<open>An entry of the EventTracker log; metadata and timestamp are not kept.\<close>

record EventData =
  category :: string
  action :: string
  label :: string
  value_event :: real

text \<open>
  What the outside world answers during one call: the clock readings, the price feed
  (\<open>merkleService.getPrice\<close>), the outcome of \<open>merkleService.executeMarketOrder\<close>, and
  \<open>JSON.stringify\<close> on numbers.
\<close>

record env =
  tAcquire :: int
  tCache :: int
  cacheTicks :: "int list"
  tOpen :: int
  priceFeed :: "error + real"
  orderOutcome :: "error + unit"
  jsonStringify :: "real \<Rightarrow> string option"

text \<open>
  The service with the singletons it holds: the rate limiter, the cache and the event
  log, and the orders that reached the Market.
\<close>

record HedgeService =
  config_hedge :: HedgeConfig
  positions :: "(string \<times> HedgePosition) list"
  rateLimiter :: RateLimiter
  cache_hedge :: "real SmartCache"
  events :: "EventData list"
  orders :: "MarketOrder list"

definition defaultHedgeConfig :: HedgeConfig where
  "defaultHedgeConfig =
     \<lparr>creditScoreThreshold = 600, hedgeRatio = 0.5, maxHedgeAmount = 100000,
      minCreditScoreToClose = 700, rebalanceInterval = 60000\<rparr>"

definition newHedgeService :: "HedgeConfig \<Rightarrow> RateLimiter \<Rightarrow> real SmartCache \<Rightarrow> HedgeService" where
  "newHedgeService cfg rl c =
     \<lparr>config_hedge = cfg, positions = [], rateLimiter = rl, cache_hedge = c,
      events = [], orders = []\<rparr>"

definition trackEvent :: "string \<Rightarrow> string \<Rightarrow> string \<Rightarrow> real \<Rightarrow> HedgeService \<Rightarrow> HedgeService" where
  "trackEvent cat act lab v hs =
     hs\<lparr>events := events hs @ [\<lparr>category = cat, action = act, label = lab, value_event = v\<rparr>]\<rparr>"

text \<open>
  \<open>calculateHedgeAmount\<close>. For \<open>creditScoreThreshold = 0\<close> JavaScript yields \<open>NaN\<close> or an
  infinity, which the real-valued model does not represent.
\<close>

definition calculateHedgeAmount :: "HedgeConfig \<Rightarrow> real \<Rightarrow> real \<Rightarrow> real" where
  "calculateHedgeAmount cfg loanAmount score =
     (let scoreAdjustment = (creditScoreThreshold cfg - score) / creditScoreThreshold cfg;
          hedgeAmount = loanAmount * hedgeRatio cfg * scoreAdjustment
      in min hedgeAmount (maxHedgeAmount cfg))"

text \<open>
  \<open>getETHPrice\<close>: \<open>if (cachedPrice)\<close> is false for \<open>null\<close> and for 0. The third argument
  that the source passes to \<open>cache.set\<close> is ignored by \<open>SmartCache.set\<close>.
\<close>

definition fetch_price :: "env \<Rightarrow> real SmartCache \<Rightarrow> ((error + real) \<times> real SmartCache) option" where
  "fetch_price e c =
     (case priceFeed e of
        Inl err \<Rightarrow> Some (Inl err, c)
      | Inr price \<Rightarrow>
          (case set_cache (jsonStringify e) ''ETH/USDC_price'' price (cacheTicks e) (tCache e) c of
             None \<Rightarrow> None
           | Some c' \<Rightarrow> Some (Inr price, c')))"

definition getETHPrice :: "env \<Rightarrow> real SmartCache \<Rightarrow> ((error + real) \<times> real SmartCache) option" where
  "getETHPrice e c =
     (case get_cache ''ETH/USDC_price'' (tCache e) c of
        (None, c1) \<Rightarrow> fetch_price e c1
      | (Some cachedPrice, c1) \<Rightarrow>
          if cachedPrice \<noteq> 0 then Some (Inr cachedPrice, c1) else fetch_price e c1)"

text \<open>Decimal rendering of \<open>Date.now()\<close> inside the template string of the position id.\<close>

fun showNat :: "nat \<Rightarrow> string" where
  "showNat n =
     (if n < 10 then [''0123456789'' ! n]
      else showNat (n div 10) @ [''0123456789'' ! (n mod 10)])"

declare showNat.simps [simp del]

definition showInt :: "int \<Rightarrow> string" where
  "showInt i = (if i < 0 then CHR ''-'' # showNat (nat (- i)) else showNat (nat i))"

definition positionId :: "int \<Rightarrow> string \<Rightarrow> string" where
  "positionId now borrowerId = ''hedge_'' @ showInt now @ ''_'' @ borrowerId"

text \<open>The \<open>catch\<close> block of \<open>evaluateAndHedge\<close>: log the error and rethrow it.\<close>

definition open_failed :: "error \<Rightarrow> HedgeService \<Rightarrow> (error + unit) \<times> HedgeService" where
  "open_failed err hs = (Inl err, trackEvent ''hedge'' ''open_position'' ''error'' 0 hs)"

definition evaluateAndHedge ::
  "env \<Rightarrow> string \<Rightarrow> real \<Rightarrow> real \<Rightarrow> HedgeService \<Rightarrow> ((error + unit) \<times> HedgeService) option" where
  "evaluateAndHedge e borrowerId score loanAmount hs =
     (if score > creditScoreThreshold (config_hedge hs) then Some (Inr (), hs)
      else
        (case acquire ''hedge'' 1 0 (tAcquire e) [] (rateLimiter hs) of
           None \<Rightarrow> None
         | Some (canProceed, rl) \<Rightarrow>
             (let hs1 = hs\<lparr>rateLimiter := rl\<rparr> in
              if \<not> canProceed then Some (open_failed RateLimitExceeded hs1)
              else
                (let hedgeAmount = calculateHedgeAmount (config_hedge hs1) loanAmount score in
                 case getETHPrice e (cache_hedge hs1) of
                   None \<Rightarrow> None
                 | Some (Inl err, c) \<Rightarrow> Some (open_failed err (hs1\<lparr>cache_hedge := c\<rparr>))
                 | Some (Inr ethPrice, c) \<Rightarrow>
                     (let order = \<lparr>symbol = ''ETH/USDC'', side = ''sell'',
                                   amount_order = js_div hedgeAmount ethPrice,
                                   type_order = ''market''\<rparr>;
                          hs2 = hs1\<lparr>cache_hedge := c, orders := orders hs1 @ [order]\<rparr>
                      in case orderOutcome e of
                           Inl err \<Rightarrow> Some (open_failed err hs2)
                         | Inr u \<Rightarrow>
                             (let position =
                                    \<lparr>id_pos = positionId (tOpen e) borrowerId,
                                     openPrice = ethPrice, amount = hedgeAmount,
                                     timestamp_pos = tOpen e, creditScore = score,
                                     status = Open, pnl = None\<rparr>
                              in Some (Inr (),
                                   trackEvent ''hedge'' ''open_position'' ''success'' hedgeAmount
                                     (hs2\<lparr>positions :=
                                             AList.update (id_pos position) position
                                               (positions hs2)\<rparr>))))))))"

text \<open>
  \<open>closePosition\<close>. The position object is updated in place, so the entry keeps its
  place in the map. \<open>currentPrice / openPrice\<close> is exact for a non-zero \<open>openPrice\<close>,
  as is the division by \<open>hedgeRatio\<close> in \<open>adjustHedgePosition\<close> for a non-zero ratio.
\<close>

definition close_failed :: "error \<Rightarrow> HedgeService \<Rightarrow> (error + unit) \<times> HedgeService" where
  "close_failed err hs = (Inl err, trackEvent ''hedge'' ''close_position'' ''error'' 0 hs)"

definition closePosition ::
  "env \<Rightarrow> string \<Rightarrow> real \<Rightarrow> HedgeService \<Rightarrow> ((error + unit) \<times> HedgeService) option" where
  "closePosition e posId currentCreditScore hs =
     (case map_of (positions hs) posId of
        None \<Rightarrow> Some (Inr (), hs)
      | Some position \<Rightarrow>
          if status position = Closed then Some (Inr (), hs)
          else
            (case getETHPrice e (cache_hedge hs) of
               None \<Rightarrow> None
             | Some (Inl err, c) \<Rightarrow> Some (close_failed err (hs\<lparr>cache_hedge := c\<rparr>))
             | Some (Inr currentPrice, c) \<Rightarrow>
                 (let order = \<lparr>symbol = ''ETH/USDC'', side = ''buy'',
                               amount_order = js_div (amount position) (openPrice position),
                               type_order = ''market''\<rparr>;
                      hs1 = hs\<lparr>cache_hedge := c, orders := orders hs @ [order]\<rparr>
                  in case orderOutcome e of
                       Inl err \<Rightarrow> Some (close_failed err hs1)
                     | Inr u \<Rightarrow>
                         (let p = amount position * (1 - currentPrice / openPrice position);
                              position' = position\<lparr>status := Closed, pnl := Some p\<rparr>
                          in Some (Inr (),
                               trackEvent ''hedge'' ''close_position'' ''success'' p
                                 (hs1\<lparr>positions :=
                                         AList.update posId position' (positions hs1)\<rparr>))))))"

text \<open>\<open>getCurrentCreditScore\<close> is a placeholder in the source: it returns 0.\<close>

definition getCurrentCreditScore :: "string \<Rightarrow> real" where
  "getCurrentCreditScore posId = 0"

text \<open>\<open>String.prototype.split\<close> on one separator character.\<close>

fun split_on :: "char \<Rightarrow> string \<Rightarrow> string list" where
  "split_on sep [] = [[]]"
| "split_on sep (c # cs) =
     (if c = sep then [] # split_on sep cs
      else (case split_on sep cs of
              [] \<Rightarrow> [[c]]
            | w # ws \<Rightarrow> (c # w) # ws))"

text \<open>
  \<open>positionId.split('_')[2]\<close>; out of range the index yields \<open>undefined\<close>, which the
  template string of the new id renders as the text \<open>undefined\<close>.
\<close>

definition borrower_of :: "string \<Rightarrow> string" where
  "borrower_of posId =
     (let parts = split_on CHR ''_'' posId
      in if 2 < length parts then parts ! 2 else ''undefined'')"

definition adjustHedgePosition ::
  "env \<Rightarrow> string \<Rightarrow> real \<Rightarrow> HedgeService \<Rightarrow> ((error + unit) \<times> HedgeService) option" where
  "adjustHedgePosition e posId newCreditScore hs =
     (case map_of (positions hs) posId of
        None \<Rightarrow> Some (Inr (), hs)
      | Some position \<Rightarrow>
          (let currentHedgeAmount = amount position;
               newHedgeAmount =
                 calculateHedgeAmount (config_hedge hs)
                   (currentHedgeAmount / hedgeRatio (config_hedge hs)) newCreditScore
           in if newHedgeAmount \<le> currentHedgeAmount then Some (Inr (), hs)
              else evaluateAndHedge e (borrower_of posId) newCreditScore
                     (newHedgeAmount - currentHedgeAmount) hs))"

text \<open>
  One iteration of the \<open>for\<close> loop of \<open>rebalancePositions\<close> on the entry at index \<open>i\<close>.
  The \<open>try/catch\<close> of the loop swallows the error of the inner call.
\<close>

definition rebalance_entry :: "env \<Rightarrow> string \<times> HedgePosition \<Rightarrow> HedgeService \<Rightarrow> HedgeService option" where
  "rebalance_entry e entry hs =
     (case entry of
        (posId, position) \<Rightarrow>
          if status position = Closed then Some hs
          else
            (let currentCreditScore = getCurrentCreditScore posId in
             if currentCreditScore \<ge> minCreditScoreToClose (config_hedge hs) then
               map_option snd (closePosition e posId currentCreditScore hs)
             else if currentCreditScore < creditScore position then
               map_option snd (adjustHedgePosition e posId currentCreditScore hs)
             else Some hs))"

text \<open>
  The iteration is over the live map: an entry appended by a top-up during the sweep is
  visited too. Each visited entry takes one world reading from the list.
\<close>

fun rebalance_from :: "env list \<Rightarrow> nat \<Rightarrow> HedgeService \<Rightarrow> HedgeService option" where
  "rebalance_from [] i hs = (if i < length (positions hs) then None else Some hs)"
| "rebalance_from (e # es) i hs =
     (if i < length (positions hs) then
        (case rebalance_entry e (positions hs ! i) hs of
           None \<Rightarrow> None
         | Some hs' \<Rightarrow> rebalance_from es (Suc i) hs')
      else Some hs)"

definition rebalancePositions :: "env list \<Rightarrow> HedgeService \<Rightarrow> HedgeService option" where
  "rebalancePositions es hs = rebalance_from es 0 hs"

text \<open>Calls on the service, in sequence; an error thrown by a call is left to its caller.\<close>

datatype hedge_op =
    EvaluateAndHedge env string real real
  | ClosePosition env string real
  | RebalancePositions "env list"

fun run_hedge :: "hedge_op list \<Rightarrow> HedgeService \<Rightarrow> HedgeService option" where
  "run_hedge [] hs = Some hs"
| "run_hedge (EvaluateAndHedge e borrowerId score loanAmount # ops) hs =
     (case evaluateAndHedge e borrowerId score loanAmount hs of
        None \<Rightarrow> None
      | Some (r, hs') \<Rightarrow> run_hedge ops hs')"
| "run_hedge (ClosePosition e posId score # ops) hs =
     (case closePosition e posId score hs of
        None \<Rightarrow> None
      | Some (r, hs') \<Rightarrow> run_hedge ops hs')"
| "run_hedge (RebalancePositions es # ops) hs =
     (case rebalancePositions es hs of
        None \<Rightarrow> None
      | Some hs' \<Rightarrow> run_hedge ops hs')"

section \<open>CreditMonitorService: alert delivery\<close>

datatype risk_level = Low | Medium | High

record CreditAlert =
  borrowerId :: string
  oldScore :: real
  newScore :: real
  timestamp_alert :: int
  riskLevel :: risk_level

definition calculateRiskLevel :: "real \<Rightarrow> risk_level" where
  "calculateRiskLevel score =
     (if score < 500 then High else if score < 650 then Medium else Low)"

text \<open>
  An observer acts on its surroundings \<open>'w\<close> and either returns or throws; what it did
  before throwing stays done.
\<close>

type_synonym 'w alert_callback = "CreditAlert \<Rightarrow> 'w \<Rightarrow> error option \<times> 'w"

definition onAlert :: "'w alert_callback \<Rightarrow> 'w alert_callback list \<Rightarrow> 'w alert_callback list" where
  "onAlert callback alertCallbacks = alertCallbacks @ [callback]"

text \<open>
  \<open>this.alertCallbacks.forEach(callback => callback(alert))\<close>: an exception leaves
  \<open>forEach\<close> at once.
\<close>

fun notifyAlertCallbacks :: "'w alert_callback list \<Rightarrow> CreditAlert \<Rightarrow> 'w \<Rightarrow> error option \<times> 'w" where
  "notifyAlertCallbacks [] alert w = (None, w)"
| "notifyAlertCallbacks (callback # rest) alert w =
     (case callback alert w of
        (Some err, w') \<Rightarrow> (Some err, w')
      | (None, w') \<Rightarrow> notifyAlertCallbacks rest alert w')"

text \<open>
  The last step of \<open>checkCreditScore\<close>: \<open>if (lastScore && lastScore !== newScore)\<close>
  builds the alert and notifies. The thrown error reaches the \<open>catch\<close> of
  \<open>checkCreditScore\<close>.
\<close>

definition alert_on_change ::
  "'w alert_callback list \<Rightarrow> string \<Rightarrow> real option \<Rightarrow> real \<Rightarrow> int \<Rightarrow> 'w \<Rightarrow> error option \<times> 'w" where
  "alert_on_change alertCallbacks borrower lastScore score now w =
     (case lastScore of
        None \<Rightarrow> (None, w)
      | Some l \<Rightarrow>
          if l \<noteq> 0 \<and> l \<noteq> score then
            notifyAlertCallbacks alertCallbacks
              \<lparr>borrowerId = borrower, oldScore = l, newScore = score,
               timestamp_alert = now, riskLevel = calculateRiskLevel score\<rparr> w
          else (None, w))"

section \<open>BatchProcessor (transaction queue)\<close>

record 'p BatchTransaction =
  id_tx :: string
  payload :: 'p
  priority :: int
  timestamp_tx :: int
  retries :: nat

record BatchConfig =
  maxBatchSize :: nat
  maxRetries :: nat
  retryDelay :: int
  processingInterval :: int

text \<open>
  The queue holds references to transaction objects: the same object can sit in the
  queue more than once, and \<open>tx.retries++\<close> is seen through every reference. \<open>objects\<close>
  is the store of the objects, \<open>timers\<close> the pending \<open>setTimeout\<close> callbacks with their
  due time, and \<open>submitted\<close> the payload owners of the calls that reached the wallet.
\<close>

record 'p BatchProcessor =
  objects :: "nat \<rightharpoonup> 'p BatchTransaction"
  queue :: "nat list"
  processing :: bool
  config_bp :: BatchConfig
  timers :: "(int \<times> nat) list"
  submitted :: "string list"

definition defaultBatchConfig :: BatchConfig where
  "defaultBatchConfig =
     \<lparr>maxBatchSize = 10, maxRetries = 3, retryDelay = 1000, processingInterval = 5000\<rparr>"

definition newBatchProcessor :: "BatchConfig \<Rightarrow> 'p BatchProcessor" where
  "newBatchProcessor cfg =
     \<lparr>objects = Map.empty, queue = [], processing = False, config_bp = cfg,
      timers = [], submitted = []\<rparr>"

text \<open>
  The comparator of \<open>sortQueue\<close>: higher priority first, then older first.
  \<open>Array.prototype.sort\<close> is stable, as this insertion sort is.
\<close>

definition tx_before :: "'p BatchTransaction \<Rightarrow> 'p BatchTransaction \<Rightarrow> bool" where
  "tx_before a b =
     (if priority a \<noteq> priority b then priority b - priority a \<le> 0
      else timestamp_tx a - timestamp_tx b \<le> 0)"

definition ref_before :: "(nat \<rightharpoonup> 'p BatchTransaction) \<Rightarrow> nat \<Rightarrow> nat \<Rightarrow> bool" where
  "ref_before objs r1 r2 =
     (case (objs r1, objs r2) of
        (Some a, Some b) \<Rightarrow> tx_before a b
      | _ \<Rightarrow> True)"

fun insert_ref :: "(nat \<Rightarrow> nat \<Rightarrow> bool) \<Rightarrow> nat \<Rightarrow> nat list \<Rightarrow> nat list" where
  "insert_ref precedes r [] = [r]"
| "insert_ref precedes r (x # xs) =
     (if precedes r x then r # x # xs else x # insert_ref precedes r xs)"

definition sortQueue :: "'p BatchProcessor \<Rightarrow> 'p BatchProcessor" where
  "sortQueue bp = bp\<lparr>queue := foldr (insert_ref (ref_before (objects bp))) (queue bp) []\<rparr>"

text \<open>\<open>addTransaction\<close>; the generated id and the fresh object reference are arguments.\<close>

definition addTransaction ::
  "nat \<Rightarrow> string \<Rightarrow> 'p \<Rightarrow> int \<Rightarrow> int \<Rightarrow> 'p BatchProcessor \<Rightarrow> 'p BatchProcessor" where
  "addTransaction ref txid pl prio now bp =
     sortQueue (bp\<lparr>objects := (objects bp)(ref \<mapsto>
                      \<lparr>id_tx = txid, payload = pl, priority = prio,
                       timestamp_tx = now, retries = 0\<rparr>),
                   queue := queue bp @ [ref]\<rparr>)"

definition removeTransaction :: "string \<Rightarrow> 'p BatchProcessor \<Rightarrow> 'p BatchProcessor" where
  "removeTransaction txid bp =
     bp\<lparr>queue := filter (\<lambda>r. case objects bp r of
                                 Some tx \<Rightarrow> id_tx tx \<noteq> txid
                               | None \<Rightarrow> True) (queue bp)\<rparr>"

type_synonym batch_outcomes = "(string \<times> (error + string)) list"

text \<open>
  The continuation of one element of the batch after its \<open>submitTransaction\<close> promise
  has settled; \<open>wallet\<close> gives the outcome of the submission.
\<close>

definition settle ::
  "('p \<Rightarrow> error + string) \<Rightarrow> int \<Rightarrow> nat \<Rightarrow> batch_outcomes \<times> 'p BatchProcessor
     \<Rightarrow> batch_outcomes \<times> 'p BatchProcessor" where
  "settle wallet now ref acc =
     (case acc of
        (results, bp) \<Rightarrow>
          (case objects bp ref of
             None \<Rightarrow> (results, bp)
           | Some tx \<Rightarrow>
               (case wallet (payload tx) of
                  Inr hash \<Rightarrow>
                    (AList.update (id_tx tx) (Inr hash) results, removeTransaction (id_tx tx) bp)
                | Inl err \<Rightarrow>
                    if retries tx < maxRetries (config_bp bp) then
                      (let tx' = tx\<lparr>retries := retries tx + 1\<rparr>
                       in (results,
                           bp\<lparr>objects := (objects bp)(ref \<mapsto> tx'),
                              timers := timers bp @
                                [(now + retryDelay (config_bp bp) * int (retries tx'), ref)]\<rparr>))
                    else
                      (AList.update (id_tx tx) (Inl err) results,
                       removeTransaction (id_tx tx) bp))))"

text \<open>
  \<open>processBatch\<close>: every element of the batch is submitted before any promise settles;
  the continuations then run one after the other.
\<close>

definition processBatch ::
  "('p \<Rightarrow> error + string) \<Rightarrow> int \<Rightarrow> 'p BatchProcessor \<Rightarrow> batch_outcomes \<times> 'p BatchProcessor" where
  "processBatch wallet now bp =
     (if processing bp \<or> queue bp = [] then ([], bp)
      else
        (let batch = take (maxBatchSize (config_bp bp)) (queue bp);
             bp1 = bp\<lparr>processing := True,
                      submitted := submitted bp @
                        concat (map (\<lambda>r. case objects bp r of
                                            Some tx \<Rightarrow> [id_tx tx]
                                          | None \<Rightarrow> []) batch)\<rparr>;
             (results, bp2) = foldl (\<lambda>acc r. settle wallet now r acc) ([], bp1) batch
         in (results, bp2\<lparr>processing := False\<rparr>)))"

text \<open>
  The \<open>setTimeout\<close> callbacks that are due at \<open>now\<close> run in the order of their due time:
  each pushes its transaction object onto the queue again and sorts the queue.
\<close>

definition fireTimers :: "int \<Rightarrow> 'p BatchProcessor \<Rightarrow> 'p BatchProcessor" where
  "fireTimers now bp =
     (let due = sort_key fst (filter (\<lambda>(t, r). t \<le> now) (timers bp));
          later = filter (\<lambda>(t, r). \<not> t \<le> now) (timers bp)
      in foldl (\<lambda>b (t, r). sortQueue (b\<lparr>queue := queue b @ [r]\<rparr>)) (bp\<lparr>timers := later\<rparr>) due)"

text \<open>
  A tick of the processing timer at \<open>now\<close>, after the timeouts that were due before
  \<open>now\<close>. A timeout due at the very instant of the tick runs after the tick, as the
  interval was registered first; it stays pending here and is run before the next tick.
\<close>

definition drain :: "('p \<Rightarrow> error + string) \<Rightarrow> int \<Rightarrow> 'p BatchProcessor \<Rightarrow> 'p BatchProcessor" where
  "drain wallet now bp = snd (processBatch wallet now (fireTimers (now - 1) bp))"

section \<open>Reachable states and sample inputs\<close>







text \<open>
  The tokens a request would find under its key at \<open>now\<close>: those of the refilled bucket,
  or \<open>maxTokens\<close> when the key has no bucket yet.
\<close>

definition available :: "RateLimiter \<Rightarrow> int \<Rightarrow> string \<Rightarrow> real" where
  "available rl now key =
     tokens (refillBucket (config_rl rl) now
       (case buckets rl key of
          Some b \<Rightarrow> b
        | None \<Rightarrow> \<lparr>tokens = maxTokens (config_rl rl), lastRefill = now\<rparr>))"

text \<open>The keys of the position map are pairwise distinct and each is the id of its position.\<close>

definition positions_inv :: "(string \<times> HedgePosition) list \<Rightarrow> bool" where
  "positions_inv ps = (distinct (map fst ps) \<and> list_all (\<lambda>(k, p). id_pos p = k) ps)"

definition open_at :: "int \<Rightarrow> string \<Rightarrow> (string \<times> HedgePosition) list \<Rightarrow> (string \<times> HedgePosition) list" where
  "open_at t b ps = filter (\<lambda>(k, p). id_pos p = positionId t b \<and> status p = Open) ps"

text \<open>A world in which the price feed quotes 2000 and the Market fills the order.\<close>

definition env_ok :: "int \<Rightarrow> env" where
  "env_ok now =
     \<lparr>tAcquire = now, tCache = now, cacheTicks = [], tOpen = now,
      priceFeed = Inr 2000, orderOutcome = Inr (),
      jsonStringify = (\<lambda>x. Some ''2000'')\<rparr>"

text \<open>The same world, except that the Market rejects the order.\<close>

definition env_order_fails :: "int \<Rightarrow> env" where
  "env_order_fails now = (env_ok now)\<lparr>orderOutcome := Inl (ExternalError ''order rejected'')\<rparr>"

definition hs0 :: HedgeService where
  "hs0 = newHedgeService defaultHedgeConfig (newRateLimiter defaultRateLimiterConfig)
           (newSmartCache defaultCacheConfig 0)"

text \<open>Two hedges for the same borrower one second apart, then a rebalance sweep.\<close>

definition hedge_ops_demo :: "hedge_op list" where
  "hedge_ops_demo =
     [EvaluateAndHedge (env_ok 1000) ''alice'' 550 50000,
      EvaluateAndHedge (env_ok 2000) ''alice'' 550 50000,
      RebalancePositions [env_ok 3000, env_ok 3000]]"

text \<open>
  Observers over a log of names: one appends its name and returns, the other throws.
\<close>

definition observer_logs :: "string \<Rightarrow> string list alert_callback" where
  "observer_logs name alert w = (None, w @ [name])"

definition observer_throws :: "string list alert_callback" where
  "observer_throws alert w = (Some (ExternalError ''observer failed''), w)"

definition alert_demo :: CreditAlert where
  "alert_demo =
     \<lparr>borrowerId = ''alice'', oldScore = 620, newScore = 550, timestamp_alert = 1000,
      riskLevel = calculateRiskLevel 550\<rparr>"

text \<open>A cache of at most 10 bytes with a time to live of one second.\<close>

definition tinyCacheConfig :: CacheConfig where
  "tinyCacheConfig = \<lparr>maxSize = 10, maxAge = 1000, cleanupInterval = 60000\<rparr>"

text \<open>A wallet that rejects every submission, and a queue holding one transaction.\<close>

definition wallet_rejects :: "unit \<Rightarrow> error + string" where
  "wallet_rejects p = Inl (ExternalError ''rejected'')"

definition bp_demo :: "unit BatchProcessor" where
  "bp_demo = addTransaction 0 ''tx1'' () 0 0 (newBatchProcessor defaultBatchConfig)"

section \<open>Properties of the rate limiter\<close>




lemma updateStats_keeps [simp]:
  "buckets (updateStats k f v rl) = buckets rl"
  "config_rl (updateStats k f v rl) = config_rl rl"
  by (auto simp: updateStats_def split: option.splits)

lemma initStats_keeps [simp]:
  "buckets (initStats k now rl) = buckets rl"
  "config_rl (initStats k now rl) = config_rl rl"
  by (auto simp: initStats_def)





lemmas rl_eval =
  newRateLimiter_def defaultRateLimiterConfig_def acquire_def acquire_loop.simps
  refillAll_def refillBucket_def initStats_def updateStats_def Let_def




text \<open>
  C5. With timeout 0, \<open>acquireBatch\<close> is meant to admit a batch in full or not at all.
  The check before the acquisition looks at each request on its own: a key that occurs
  twice passes the check twice against the same tokens, and a key without a bucket
  passes whatever it asks for. On a fresh limiter with \<open>maxTokens = 100\<close>, the batch
  \<open>[(a, 60), (a, 60)]\<close> takes 60 tokens from \<open>a\<close> and reports \<open>a\<close> as failed, and the batch
  \<open>[(a, 1), (b, 200)]\<close> takes one token from \<open>a\<close> and reports \<open>b\<close> as failed.
\<close>

theorem acquireBatch_partial_consumption:
  "map_option (\<lambda>(results, rl). (results, map_option tokens (buckets rl ''a'')))
     (acquireBatch [(''a'', 60), (''a'', 60)] 0 0 [] (newRateLimiter defaultRateLimiterConfig)) =
     Some ([(''a'', False)], Some 40) \<and>
   map_option (\<lambda>(results, rl). (results, map_option tokens (buckets rl ''a'')))
     (acquireBatch [(''a'', 1), (''b'', 200)] 0 0 [] (newRateLimiter defaultRateLimiterConfig)) =
     Some ([(''a'', True), (''b'', False)], Some 99)"
  by (simp add: acquireBatch_def rl_eval)

lemma refillBucket_idem:
  "refillBucket cfg now (refillBucket cfg now b) = refillBucket cfg now b"
  by (simp add: refillBucket_def Let_def)

lemma check_all_buckets:
  "check_all now reqs rl = (r, rl1) \<Longrightarrow>
   config_rl rl1 = config_rl rl \<and>
   (\<forall>k. buckets rl1 k = buckets rl k \<or>
        buckets rl1 k = map_option (refillBucket (config_rl rl) now) (buckets rl k))"
proof (induction reqs arbitrary: rl)
  case Nil
  then show ?case by simp
next
  case (Cons a reqs)
  obtain key cost where a: "a = (key, cost)" by (cases a)
  show ?case
  proof (cases "buckets rl key")
    case None
    with Cons.prems a have "check_all now reqs rl = (r, rl1)" by simp
    from Cons.IH[OF this] show ?thesis .
  next
    case (Some bucket)
    let ?b = "refillBucket (config_rl rl) now bucket"
    let ?rl = "rl\<lparr>buckets := (buckets rl)(key \<mapsto> ?b)\<rparr>"
    show ?thesis
    proof (cases "tokens ?b \<ge> cost")
      case True
      with Cons.prems a Some have "check_all now reqs ?rl = (r, rl1)" by (simp add: Let_def)
      from Cons.IH[OF this] have cf: "config_rl rl1 = config_rl rl"
        and ih: "\<And>k. buckets rl1 k = buckets ?rl k \<or>
                   buckets rl1 k = map_option (refillBucket (config_rl rl) now) (buckets ?rl k)"
        by auto
      have "buckets rl1 k = buckets rl k \<or>
            buckets rl1 k = map_option (refillBucket (config_rl rl) now) (buckets rl k)" for k
      proof (cases "k = key")
        case True
        with ih[of key] Some show ?thesis by (simp add: refillBucket_idem)
      next
        case False
        with ih[of k] show ?thesis by simp
      qed
      with cf show ?thesis by blast
    next
      case False
      with Cons.prems a Some have "rl1 = ?rl" by (simp add: Let_def)
      with Some show ?thesis by auto
    qed
  qed
qed

lemma check_all_True:
  "check_all now reqs rl = (True, rl1) \<Longrightarrow> (key, cost) \<in> set reqs \<Longrightarrow>
   buckets rl1 key = map_option (refillBucket (config_rl rl) now) (buckets rl key) \<and>
   (\<forall>b. buckets rl1 key = Some b \<longrightarrow> cost \<le> tokens b)"
proof (induction reqs arbitrary: rl)
  case Nil
  then show ?case by simp
next
  case (Cons a reqs)
  obtain k c where a: "a = (k, c)" by (cases a)
  show ?case
  proof (cases "buckets rl k")
    case None
    with Cons.prems(1) a have rest: "check_all now reqs rl = (True, rl1)" by simp
    show ?thesis
    proof (cases "(key, cost) \<in> set reqs")
      case True
      from Cons.IH[OF rest True] show ?thesis .
    next
      case False
      with Cons.prems(2) a have "key = k" by simp
      moreover have "buckets rl1 k = buckets rl k \<or>
                     buckets rl1 k = map_option (refillBucket (config_rl rl) now) (buckets rl k)"
        using check_all_buckets[OF rest] by blast
      ultimately show ?thesis using None by auto
    qed
  next
    case (Some bucket)
    let ?b = "refillBucket (config_rl rl) now bucket"
    let ?rl = "rl\<lparr>buckets := (buckets rl)(k \<mapsto> ?b)\<rparr>"
    from Cons.prems(1) a Some have ok: "c \<le> tokens ?b"
      and rest: "check_all now reqs ?rl = (True, rl1)"
      by (auto simp: Let_def split: if_splits)
    have "buckets rl1 k = buckets ?rl k \<or>
          buckets rl1 k = map_option (refillBucket (config_rl ?rl) now) (buckets ?rl k)"
      using check_all_buckets[OF rest] by blast
    then have at_k: "buckets rl1 k = Some ?b"
      by (auto simp: refillBucket_idem)
    show ?thesis
    proof (cases "key = k")
      case True
      show ?thesis
      proof (cases "(key, cost) \<in> set reqs")
        case in_rest: True
        from Cons.IH[OF rest in_rest] True Some at_k show ?thesis by (simp add: refillBucket_idem)
      next
        case False
        with Cons.prems(2) a True have "cost = c" by simp
        with True at_k ok Some show ?thesis by simp
      qed
    next
      case False
      with Cons.prems(2) a have in_rest: "(key, cost) \<in> set reqs" by simp
      from Cons.IH[OF rest in_rest] False show ?thesis by simp
    qed
  qed
qed

lemma acquire0_granted:
  assumes "cost \<le> available rl now key"
  shows "\<exists>rl'. acquire key cost 0 now [] rl = Some (True, rl') \<and>
               config_rl rl' = config_rl rl \<and>
               map_option tokens (buckets rl' key) = Some (available rl now key - cost) \<and>
               (\<forall>k. k \<noteq> key \<longrightarrow> buckets rl' k = buckets rl k)"
  using assms
  by (cases "buckets rl key")
     (simp_all add: acquire_def acquire_loop.simps available_def Let_def)

lemma available_cong:
  "config_rl rl' = config_rl rl \<Longrightarrow> buckets rl' k = buckets rl k \<Longrightarrow>
   available rl' now k = available rl now k"
  by (cases "buckets rl k") (simp_all add: available_def)

lemma acquire_each_granted:
  "distinct (map fst reqs) \<Longrightarrow> \<forall>(k, c) \<in> set reqs. c \<le> available rl now k \<Longrightarrow>
   \<exists>results' rl'. acquire_each now reqs results rl = Some (results', rl') \<and>
      config_rl rl' = config_rl rl \<and>
      (\<forall>(k, c) \<in> set reqs. map_of results' k = Some True \<and>
          map_option tokens (buckets rl' k) = Some (available rl now k - c)) \<and>
      (\<forall>k. k \<notin> fst ` set reqs \<longrightarrow>
          buckets rl' k = buckets rl k \<and> map_of results' k = map_of results k)"
proof (induction reqs arbitrary: results rl)
  case Nil
  then show ?case by simp
next
  case (Cons a reqs)
  obtain key cost where a: "a = (key, cost)" by (cases a)
  from Cons.prems a have fresh: "key \<notin> fst ` set reqs" and dist: "distinct (map fst reqs)"
    and here: "cost \<le> available rl now key"
    and rest: "\<forall>(k, c) \<in> set reqs. c \<le> available rl now k"
    by auto
  from acquire0_granted[OF here] obtain rl2 where
    acq: "acquire key cost 0 now [] rl = Some (True, rl2)"
    and cf2: "config_rl rl2 = config_rl rl"
    and tk2: "map_option tokens (buckets rl2 key) = Some (available rl now key - cost)"
    and oth2: "\<And>k. k \<noteq> key \<Longrightarrow> buckets rl2 k = buckets rl k"
    by blast
  have same: "available rl2 now k = available rl now k" if "k \<noteq> key" for k
    using available_cong[OF cf2 oth2[OF that]] .
  have rest2: "\<forall>(k, c) \<in> set reqs. c \<le> available rl2 now k"
  proof (clarify)
    fix k c assume kc: "(k, c) \<in> set reqs"
    then have "k \<noteq> key" using fresh by force
    with rest kc same show "c \<le> available rl2 now k" by auto
  qed
  from Cons.IH[OF dist rest2, of "AList.update key True results"] obtain results' rl' where
    run: "acquire_each now reqs (AList.update key True results) rl2 = Some (results', rl')"
    and cf: "config_rl rl' = config_rl rl2"
    and ok: "\<forall>(k, c) \<in> set reqs. map_of results' k = Some True \<and>
               map_option tokens (buckets rl' k) = Some (available rl2 now k - c)"
    and oth: "\<forall>k. k \<notin> fst ` set reqs \<longrightarrow>
               buckets rl' k = buckets rl2 k \<and>
               map_of results' k = map_of (AList.update key True results) k"
    by blast
  have whole: "acquire_each now (a # reqs) results rl = Some (results', rl')"
    using acq run a by simp
  have at_key: "map_of results' key = Some True \<and>
                map_option tokens (buckets rl' key) = Some (available rl now key - cost)"
    using oth fresh tk2 by (simp add: update_conv')
  have at_rest: "\<forall>(k, c) \<in> set reqs. map_of results' k = Some True \<and>
                   map_option tokens (buckets rl' k) = Some (available rl now k - c)"
  proof (clarify)
    fix k c assume kc: "(k, c) \<in> set reqs"
    then have "k \<noteq> key" using fresh by force
    with ok kc same show "map_of results' k = Some True \<and>
        map_option tokens (buckets rl' k) = Some (available rl now k - c)" by auto
  qed
  have outside: "\<forall>k. k \<notin> fst ` set (a # reqs) \<longrightarrow>
                   buckets rl' k = buckets rl k \<and> map_of results' k = map_of results k"
    using oth oth2 a by (auto simp: update_conv')
  from whole cf cf2 at_key at_rest outside a show ?case by auto
qed

lemma all_false_lookup:
  "map_of (all_false reqs results) k =
     (if k \<in> fst ` set reqs then Some False else map_of results k)"
  by (induction reqs arbitrary: results) (force simp: update_conv')+

text \<open>
  Where the batch is all or nothing: with timeout 0, pairwise distinct keys and no request
  for a new key above \<open>maxTokens\<close>, either every request is granted and pays its cost,
  or every request is refused and the buckets are at most refilled.
\<close>

lemma acquireBatch_all_or_nothing:
  assumes "distinct (map fst requests)"
    and "\<forall>(k, c) \<in> set requests. buckets rl k = None \<longrightarrow> c \<le> maxTokens (config_rl rl)"
  shows "\<exists>results rl'. acquireBatch requests 0 now [] rl = Some (results, rl') \<and>
           ((\<forall>(k, c) \<in> set requests. map_of results k = Some True \<and>
                map_option tokens (buckets rl' k) = Some (available rl now k - c)) \<or>
            ((\<forall>(k, c) \<in> set requests. map_of results k = Some False) \<and>
             (\<forall>k. buckets rl' k = buckets rl k \<or>
                  buckets rl' k = map_option (refillBucket (config_rl rl) now) (buckets rl k))))"
proof -
  obtain canAcquire rl1 where chk: "check_all now requests rl = (canAcquire, rl1)"
    by (cases "check_all now requests rl")
  note bk = check_all_buckets[OF chk]
  show ?thesis
  proof (cases canAcquire)
    case False
    with chk have "acquireBatch requests 0 now [] rl = Some (all_false requests [], rl1)"
      by (simp add: acquireBatch_def)
    moreover have "\<forall>(k, c) \<in> set requests. map_of (all_false requests []) k = Some False"
      by (force simp: all_false_lookup)
    ultimately show ?thesis using bk by blast
  next
    case True
    with chk have chkT: "check_all now requests rl = (True, rl1)" by simp
    have av: "available rl1 now k = available rl now k \<and> c \<le> available rl1 now k"
      if kc: "(k, c) \<in> set requests" for k c
    proof (cases "buckets rl k")
      case None
      from check_all_True[OF chkT kc] None have "buckets rl1 k = None" by simp
      with None bk assms(2) kc show ?thesis
        by (auto simp: available_def refillBucket_def Let_def)
    next
      case (Some b0)
      from check_all_True[OF chkT kc] Some
      have b1: "buckets rl1 k = Some (refillBucket (config_rl rl) now b0)"
        and le: "c \<le> tokens (refillBucket (config_rl rl) now b0)" by auto
      with Some bk show ?thesis by (simp add: available_def refillBucket_idem)
    qed
    then have "\<forall>(k, c) \<in> set requests. c \<le> available rl1 now k" by auto
    from acquire_each_granted[OF assms(1) this, of "[]"] obtain results rl' where
      run: "acquire_each now requests [] rl1 = Some (results, rl')"
      and ok: "\<forall>(k, c) \<in> set requests. map_of results k = Some True \<and>
                 map_option tokens (buckets rl' k) = Some (available rl1 now k - c)"
      by blast
    from chk True run have "acquireBatch requests 0 now [] rl = Some (results, rl')"
      by (simp add: acquireBatch_def)
    moreover from ok av have "\<forall>(k, c) \<in> set requests. map_of results k = Some True \<and>
                 map_option tokens (buckets rl' k) = Some (available rl now k - c)"
      by auto
    ultimately show ?thesis by blast
  qed
qed

section \<open>Properties of the hedge service\<close>

lemma trackEvent_keeps [simp]:
  "positions (trackEvent c a l v hs) = positions hs"
  "rateLimiter (trackEvent c a l v hs) = rateLimiter hs"
  "orders (trackEvent c a l v hs) = orders hs"
  "cache_hedge (trackEvent c a l v hs) = cache_hedge hs"
  "config_hedge (trackEvent c a l v hs) = config_hedge hs"
  by (simp_all add: trackEvent_def)

lemmas cache_eval =
  newSmartCache_def defaultCacheConfig_def get_cache_def set_cache_def evict_loop.simps
  calculateSize_def

lemmas hedge_eval =
  evaluateAndHedge_def hs0_def newHedgeService_def defaultHedgeConfig_def
  env_ok_def env_order_fails_def getETHPrice_def fetch_price_def
  calculateHedgeAmount_def positionId_def showInt_def showNat.simps
  trackEvent_def open_failed_def js_div_def rl_eval cache_eval

text \<open>
  C3. \<open>calculateHedgeAmount\<close> returns
  \<open>min (loanAmount * hedgeRatio * (threshold - score) / threshold) maxHedgeAmount\<close> and
  applies no floor at 0. For a positive threshold the result is non-negative whenever
  the score does not exceed the threshold and the loan amount, the hedge ratio and the
  cap are non-negative; for threshold 600, score 0, loan 50000, ratio 0.5 and cap
  100000 it is 25000.
\<close>

theorem calculateHedgeAmount_value:
  assumes "0 < creditScoreThreshold cfg"
  shows "calculateHedgeAmount cfg loanAmount score =
           min (loanAmount * hedgeRatio cfg * (creditScoreThreshold cfg - score)
                  / creditScoreThreshold cfg)
               (maxHedgeAmount cfg) \<and>
         (score \<le> creditScoreThreshold cfg \<and> 0 \<le> loanAmount \<and> 0 \<le> hedgeRatio cfg \<and>
          0 \<le> maxHedgeAmount cfg \<longrightarrow> 0 \<le> calculateHedgeAmount cfg loanAmount score) \<and>
         calculateHedgeAmount defaultHedgeConfig 50000 0 = 25000"
proof (intro conjI impI)
  show "calculateHedgeAmount cfg loanAmount score =
          min (loanAmount * hedgeRatio cfg * (creditScoreThreshold cfg - score)
                 / creditScoreThreshold cfg)
              (maxHedgeAmount cfg)"
    by (simp add: calculateHedgeAmount_def Let_def)
next
  assume h: "score \<le> creditScoreThreshold cfg \<and> 0 \<le> loanAmount \<and> 0 \<le> hedgeRatio cfg \<and>
             0 \<le> maxHedgeAmount cfg"
  from h assms have "0 \<le> (creditScoreThreshold cfg - score) / creditScoreThreshold cfg"
    by simp
  moreover from h have "0 \<le> loanAmount * hedgeRatio cfg" by simp
  ultimately have "0 \<le> loanAmount * hedgeRatio cfg *
                     ((creditScoreThreshold cfg - score) / creditScoreThreshold cfg)"
    by (rule mult_nonneg_nonneg[rotated])
  with h show "0 \<le> calculateHedgeAmount cfg loanAmount score"
    by (simp add: calculateHedgeAmount_def Let_def)
next
  show "calculateHedgeAmount defaultHedgeConfig 50000 0 = 25000"
    by (simp add: calculateHedgeAmount_def defaultHedgeConfig_def Let_def)
qed

text \<open>Witness for C3: the default configuration, a loan of 50000 and score 550.\<close>

theorem calculateHedgeAmount_value_witness:
  "0 < creditScoreThreshold defaultHedgeConfig \<and>
   calculateHedgeAmount defaultHedgeConfig 50000 550 = 6250 / 3 \<and>
   0 \<le> calculateHedgeAmount defaultHedgeConfig 50000 550"
proof -
  have pos: "0 < creditScoreThreshold defaultHedgeConfig"
    by (simp add: defaultHedgeConfig_def)
  have side: "(550::real) \<le> creditScoreThreshold defaultHedgeConfig \<and> (0::real) \<le> 50000 \<and>
              0 \<le> hedgeRatio defaultHedgeConfig \<and> 0 \<le> maxHedgeAmount defaultHedgeConfig"
    by (simp add: defaultHedgeConfig_def)
  from calculateHedgeAmount_value[OF pos, of 50000 550] side pos show ?thesis
    by (simp add: defaultHedgeConfig_def)
qed

text \<open>
  Counterexample to C3 as stated: with the default configuration and a score of 700,
  above the threshold, the result is negative.
\<close>

theorem calculateHedgeAmount_negative:
  "calculateHedgeAmount defaultHedgeConfig 50000 700 = - (12500 / 3) \<and>
   calculateHedgeAmount defaultHedgeConfig 50000 700 < 0"
  by (simp add: calculateHedgeAmount_def defaultHedgeConfig_def Let_def)

text \<open>
  C2. A score above the threshold is a no-op, but a score equal to the threshold is
  not: the guard is \<open>creditScore > threshold\<close>. With the default configuration and
  score 600 the call takes a token from the \<open>hedge\<close> bucket, sends an order of size 0 to
  the Market and records an open position of amount 0.
\<close>

theorem evaluateAndHedge_at_threshold:
  "map_option
     (\<lambda>(r, hs). (r, map_option tokens (buckets (rateLimiter hs) ''hedge''),
                 map amount_order (orders hs),
                 map (\<lambda>(k, p). (k, amount p, status p)) (positions hs)))
     (evaluateAndHedge (env_ok 1000) ''alice'' 600 50000 hs0) =
   Some (Inr (), Some 99, [Fin 0], [(''hedge_1000_alice'', 0, Open)])"
  by (simp add: hedge_eval)

lemma evaluateAndHedge_above_threshold:
  "score > creditScoreThreshold (config_hedge hs) \<Longrightarrow>
   evaluateAndHedge e b score loanAmount hs = Some (Inr (), hs)"
  by (simp add: evaluateAndHedge_def)

lemma list_all_update:
  "list_all P al \<Longrightarrow> P (k, v) \<Longrightarrow> list_all P (AList.update k v al)"
  by (induction al) auto

lemma positions_inv_update:
  "positions_inv ps \<Longrightarrow> id_pos p = k \<Longrightarrow> positions_inv (AList.update k p ps)"
  by (simp add: positions_inv_def distinct_update list_all_update)

lemma positions_inv_lookup:
  "positions_inv ps \<Longrightarrow> map_of ps k = Some p \<Longrightarrow> id_pos p = k"
  by (auto simp: positions_inv_def list_all_iff dest!: map_of_SomeD)

lemma evaluateAndHedge_positions_inv:
  assumes "positions_inv (positions hs)"
    and "evaluateAndHedge e b score loan hs = Some (r, hs')"
  shows "positions_inv (positions hs')"
  using assms
  by (auto simp: evaluateAndHedge_def open_failed_def Let_def positions_inv_update
           split: if_splits option.splits prod.splits sum.splits)

lemma closePosition_positions_inv:
  assumes "positions_inv (positions hs)"
    and "closePosition e k score hs = Some (r, hs')"
  shows "positions_inv (positions hs')"
  using assms
  by (auto simp: closePosition_def close_failed_def Let_def positions_inv_update positions_inv_lookup
           split: if_splits option.splits prod.splits sum.splits)

lemma adjustHedgePosition_positions_inv:
  assumes "positions_inv (positions hs)"
    and "adjustHedgePosition e k score hs = Some (r, hs')"
  shows "positions_inv (positions hs')"
  using assms
  by (auto simp: adjustHedgePosition_def Let_def
           split: if_splits option.splits dest: evaluateAndHedge_positions_inv)

lemma rebalance_entry_positions_inv:
  assumes "positions_inv (positions hs)"
    and "rebalance_entry e entry hs = Some hs'"
  shows "positions_inv (positions hs')"
  using assms
  by (auto simp: rebalance_entry_def Let_def
           split: if_splits prod.splits
           dest: closePosition_positions_inv adjustHedgePosition_positions_inv)

lemma rebalance_from_positions_inv:
  "positions_inv (positions hs) \<Longrightarrow> rebalance_from es i hs = Some hs' \<Longrightarrow>
   positions_inv (positions hs')"
proof (induction es arbitrary: i hs)
  case Nil
  then show ?case by (simp split: if_splits)
next
  case (Cons e es)
  show ?case
  proof (cases "i < length (positions hs)")
    case True
    with Cons.prems(2) obtain hs1 where
      step: "rebalance_entry e (positions hs ! i) hs = Some hs1"
      and rest: "rebalance_from es (Suc i) hs1 = Some hs'"
      by (auto split: option.splits)
    from rebalance_entry_positions_inv[OF Cons.prems(1) step]
    show ?thesis by (rule Cons.IH[OF _ rest])
  next
    case False
    with Cons.prems show ?thesis by simp
  qed
qed

lemma run_hedge_positions_inv:
  "positions_inv (positions hs) \<Longrightarrow> run_hedge ops hs = Some hs' \<Longrightarrow>
   positions_inv (positions hs')"
proof (induction ops arbitrary: hs)
  case Nil
  then show ?case by simp
next
  case (Cons a ops)
  show ?case
  proof (cases a)
    case (EvaluateAndHedge e b score loan)
    with Cons.prems(2) obtain r hs1 where
      step: "evaluateAndHedge e b score loan hs = Some (r, hs1)" and rest: "run_hedge ops hs1 = Some hs'"
      by (auto split: option.splits)
    from evaluateAndHedge_positions_inv[OF Cons.prems(1) step] show ?thesis
      by (rule Cons.IH[OF _ rest])
  next
    case (ClosePosition e k score)
    with Cons.prems(2) obtain r hs1 where
      step: "closePosition e k score hs = Some (r, hs1)" and rest: "run_hedge ops hs1 = Some hs'"
      by (auto split: option.splits)
    from closePosition_positions_inv[OF Cons.prems(1) step] show ?thesis
      by (rule Cons.IH[OF _ rest])
  next
    case (RebalancePositions es)
    with Cons.prems(2) obtain hs1 where
      step: "rebalance_from es 0 hs = Some hs1" and rest: "run_hedge ops hs1 = Some hs'"
      by (auto simp: rebalancePositions_def split: option.splits)
    from rebalance_from_positions_inv[OF Cons.prems(1) step] show ?thesis
      by (rule Cons.IH[OF _ rest])
  qed
qed

lemma no_entry_for_fresh_id:
  "c \<notin> fst ` set ps \<Longrightarrow> list_all (\<lambda>(k, p). id_pos p = k) ps \<Longrightarrow>
   filter (\<lambda>(k, p). id_pos p = c \<and> Q p) ps = []"
  by (induction ps) auto

lemma one_entry_per_id:
  "positions_inv ps \<Longrightarrow> length (filter (\<lambda>(k, p). id_pos p = c \<and> Q p) ps) \<le> 1"
proof (induction ps)
  case Nil
  then show ?case by simp
next
  case (Cons x ps)
  obtain k p where x: "x = (k, p)" by (cases x)
  from Cons.prems have inv: "positions_inv ps" and fresh: "k \<notin> fst ` set ps"
    and all: "list_all (\<lambda>(k, p). id_pos p = k) ps" and idk: "id_pos p = k"
    by (auto simp: positions_inv_def x)
  show ?case
  proof (cases "id_pos p = c")
    case True
    with idk fresh have "c \<notin> fst ` set ps" by simp
    from no_entry_for_fresh_id[OF this all] show ?thesis by (simp add: x)
  next
    case False
    with Cons.IH[OF inv] show ?thesis by (simp add: x)
  qed
qed


lemmas rebalance_eval =
  run_hedge.simps rebalancePositions_def rebalance_entry_def getCurrentCreditScore_def
  adjustHedgePosition_def closePosition_def

text \<open>
  C1. The service never looks for an existing position of the borrower: every admitted
  call whose order is filled stores a position under the id
  \<open>hedge_<Date.now()>_<borrowerId>\<close>, replacing only an entry with that very id. In
  every state reached from construction by \<open>evaluateAndHedge\<close>, \<open>closePosition\<close> and
  \<open>rebalancePositions\<close> calls there is at most one open position per position id,
  that is per borrower and opening instant.
\<close>

theorem one_open_position_per_id:
  assumes "run_hedge ops (newHedgeService cfg rl c) = Some hs"
  shows "length (open_at t b (positions hs)) \<le> 1"
proof -
  have "positions_inv (positions (newHedgeService cfg rl c))"
    by (simp add: positions_inv_def newHedgeService_def)
  from run_hedge_positions_inv[OF this assms] show ?thesis
    unfolding open_at_def by (rule one_entry_per_id)
qed

lemma run_hedge_ops_demo:
  "map_option (\<lambda>hs. map (\<lambda>(k, p). (k, status p)) (positions hs)) (run_hedge hedge_ops_demo hs0) =
   Some [(''hedge_1000_alice'', Open), (''hedge_2000_alice'', Open)]"
  by (simp add: hedge_ops_demo_def rebalance_eval hedge_eval)

text \<open>Witness for C1: the run of \<open>hedge_ops_demo\<close> from a fresh service.\<close>

theorem one_open_position_per_id_witness:
  "map_option (\<lambda>hs. length (open_at 1000 ''alice'' (positions hs)) \<le> 1)
     (run_hedge hedge_ops_demo hs0) = Some True"
proof -
  obtain hs where run: "run_hedge hedge_ops_demo hs0 = Some hs"
    using run_hedge_ops_demo by auto
  then have "run_hedge hedge_ops_demo
               (newHedgeService defaultHedgeConfig (newRateLimiter defaultRateLimiterConfig)
                  (newSmartCache defaultCacheConfig 0)) = Some hs"
    by (simp add: hs0_def)
  from one_open_position_per_id[OF this, of 1000 "''alice''"] run show ?thesis by simp
qed

text \<open>
  Counterexample to C1 as stated: two successive admitted calls for the borrower
  \<open>alice\<close>, both with score 550 below the threshold 600, at clock readings 1000 and
  2000, leave two open positions in the map.
\<close>

theorem two_open_positions_same_borrower:
  "map_option (\<lambda>hs. map (\<lambda>(k, p). (k, borrower_of k, status p)) (positions hs))
     (run_hedge [EvaluateAndHedge (env_ok 1000) ''alice'' 550 50000,
                 EvaluateAndHedge (env_ok 2000) ''alice'' 550 50000] hs0) =
   Some [(''hedge_1000_alice'', ''alice'', Open), (''hedge_2000_alice'', ''alice'', Open)]"
  by (simp add: run_hedge.simps borrower_of_def hedge_eval)


lemma evaluateAndHedge_order_fails:
  assumes "\<not> score > creditScoreThreshold (config_hedge hs)"
    and "acquire ''hedge'' 1 0 (tAcquire e) [] (rateLimiter hs) = Some (True, rl)"
    and "getETHPrice e (cache_hedge hs) = Some (Inr price, c)"
    and "orderOutcome e = Inl err"
  shows "evaluateAndHedge e b score loanAmount hs =
           Some (open_failed err
                   (hs\<lparr>rateLimiter := rl, cache_hedge := c,
                       orders := orders hs @
                         [\<lparr>symbol = ''ETH/USDC'', side = ''sell'',
                           amount_order =
                             js_div (calculateHedgeAmount (config_hedge hs) loanAmount score) price,
                           type_order = ''market''\<rparr>]\<rparr>))"
  using assms by (simp add: evaluateAndHedge_def Let_def)

lemma acquire_granted_tokens:
  assumes "acquire key cost 0 now [] rl = Some (True, rl')"
  shows "map_option tokens (buckets rl' key) =
           Some (tokens (refillBucket (config_rl rl) now
                   (case buckets rl key of
                      Some b \<Rightarrow> b
                    | None \<Rightarrow> \<lparr>tokens = maxTokens (config_rl rl), lastRefill = now\<rparr>)) - cost)"
  using assms
  by (auto simp: acquire_def acquire_loop.simps Let_def updateStats_def initStats_def
           split: option.splits if_splits)

lemma demo_admitted:
  "\<exists>rl. acquire ''hedge'' 1 0 (tAcquire (env_order_fails 1000)) [] (rateLimiter hs0) = Some (True, rl)"
  by (simp add: hedge_eval)

lemma demo_price:
  "\<exists>c. getETHPrice (env_order_fails 1000) (cache_hedge hs0) = Some (Inr 2000, c)"
  by (simp add: hedge_eval)

text \<open>
  C4. When a call passes the threshold guard, is admitted by the rate limiter, obtains a
  price, and \<open>executeMarketOrder\<close> then throws, \<open>evaluateAndHedge\<close> returns that error
  and the position map is the one from before the call.
\<close>

theorem failed_order_leaves_positions:
  assumes "score \<le> creditScoreThreshold (config_hedge hs)"
    and "acquire ''hedge'' 1 0 (tAcquire e) [] (rateLimiter hs) = Some (True, rl)"
    and "getETHPrice e (cache_hedge hs) = Some (Inr price, c)"
    and "orderOutcome e = Inl err"
  shows "\<exists>hs'. evaluateAndHedge e b score loanAmount hs = Some (Inl err, hs') \<and>
               positions hs' = positions hs"
proof -
  from assms(1) have "\<not> score > creditScoreThreshold (config_hedge hs)" by simp
  from evaluateAndHedge_order_fails[OF this assms(2-4)] show ?thesis
    by (simp add: open_failed_def)
qed

text \<open>
  Witness for C4: a fresh service, score 550, and a Market that rejects the order. The
  call returns the Market's error and the position map stays empty.
\<close>

theorem failed_order_leaves_positions_witness:
  "map_option (\<lambda>(r, hs). (r, positions hs))
     (evaluateAndHedge (env_order_fails 1000) ''alice'' 550 50000 hs0) =
   Some (Inl (ExternalError ''order rejected''), positions hs0)"
proof -
  have guard: "(550::real) \<le> creditScoreThreshold (config_hedge hs0)"
    by (simp add: hs0_def newHedgeService_def defaultHedgeConfig_def)
  obtain rl where adm:
    "acquire ''hedge'' 1 0 (tAcquire (env_order_fails 1000)) [] (rateLimiter hs0) = Some (True, rl)"
    using demo_admitted by blast
  obtain c where pr: "getETHPrice (env_order_fails 1000) (cache_hedge hs0) = Some (Inr 2000, c)"
    using demo_price by blast
  have fails: "orderOutcome (env_order_fails 1000) = Inl (ExternalError ''order rejected'')"
    by (simp add: env_order_fails_def env_ok_def)
  from failed_order_leaves_positions[OF guard adm pr fails, of "''alice''" 50000]
  show ?thesis by auto
qed

text \<open>
  C10. In the same situation the token that admitted the call is not given back: after
  the failed call the \<open>hedge\<close> bucket holds one token less than it held after the refill
  that \<open>acquire\<close> performed on entry (a fresh bucket starts at \<open>maxTokens\<close>).
\<close>

theorem failed_order_keeps_token_spent:
  assumes "score \<le> creditScoreThreshold (config_hedge hs)"
    and "acquire ''hedge'' 1 0 (tAcquire e) [] (rateLimiter hs) = Some (True, rl)"
    and "getETHPrice e (cache_hedge hs) = Some (Inr price, c)"
    and "orderOutcome e = Inl err"
  shows "\<exists>hs'. evaluateAndHedge e b score loanAmount hs = Some (Inl err, hs') \<and>
               map_option tokens (buckets (rateLimiter hs') ''hedge'') =
                 Some (tokens (refillBucket (config_rl (rateLimiter hs)) (tAcquire e)
                         (case buckets (rateLimiter hs) ''hedge'' of
                            Some b0 \<Rightarrow> b0
                          | None \<Rightarrow> \<lparr>tokens = maxTokens (config_rl (rateLimiter hs)),
                                      lastRefill = tAcquire e\<rparr>)) - 1)"
proof -
  from assms(1) have "\<not> score > creditScoreThreshold (config_hedge hs)" by simp
  from evaluateAndHedge_order_fails[OF this assms(2-4)] acquire_granted_tokens[OF assms(2)]
  show ?thesis by (simp add: open_failed_def)
qed

text \<open>
  Witness for C10: on a fresh service the bucket is created with 100 tokens and holds
  99 after the failed call.
\<close>

theorem failed_order_keeps_token_spent_witness:
  "map_option (\<lambda>(r, hs). (r, map_option tokens (buckets (rateLimiter hs) ''hedge'')))
     (evaluateAndHedge (env_order_fails 1000) ''alice'' 550 50000 hs0) =
   Some (Inl (ExternalError ''order rejected''), Some 99)"
proof -
  have guard: "(550::real) \<le> creditScoreThreshold (config_hedge hs0)"
    by (simp add: hs0_def newHedgeService_def defaultHedgeConfig_def)
  obtain rl where adm:
    "acquire ''hedge'' 1 0 (tAcquire (env_order_fails 1000)) [] (rateLimiter hs0) = Some (True, rl)"
    using demo_admitted by blast
  obtain c where pr: "getETHPrice (env_order_fails 1000) (cache_hedge hs0) = Some (Inr 2000, c)"
    using demo_price by blast
  have fails: "orderOutcome (env_order_fails 1000) = Inl (ExternalError ''order rejected'')"
    by (simp add: env_order_fails_def env_ok_def)
  have fresh: "tokens (refillBucket (config_rl (rateLimiter hs0)) (tAcquire (env_order_fails 1000))
                 (case buckets (rateLimiter hs0) ''hedge'' of
                    Some b0 \<Rightarrow> b0
                  | None \<Rightarrow> \<lparr>tokens = maxTokens (config_rl (rateLimiter hs0)),
                              lastRefill = tAcquire (env_order_fails 1000)\<rparr>)) - 1 = 99"
    by (simp add: hedge_eval)
  from failed_order_keeps_token_spent[OF guard adm pr fails, of "''alice''" 50000] fresh
  show ?thesis by auto
qed

section \<open>Properties of alert delivery\<close>

lemma notify_append:
  "notifyAlertCallbacks pre alert w = (None, w1) \<Longrightarrow>
   notifyAlertCallbacks (pre @ post) alert w = notifyAlertCallbacks post alert w1"
  by (induction pre arbitrary: w) (auto split: prod.splits option.splits)

text \<open>
  C7. Delivery follows the order of registration and stops at the first observer that
  throws: when the observers \<open>pre\<close> have all returned and the next observer throws,
  \<open>notifyAlertCallbacks\<close> ends with that exception and with the surroundings as that
  observer left them, whatever observers \<open>post\<close> are registered after it. They are not
  invoked.
\<close>

theorem notify_stops_at_first_throw:
  assumes "notifyAlertCallbacks pre alert w = (None, w1)"
    and "callback alert w1 = (Some err, w2)"
  shows "notifyAlertCallbacks (pre @ callback # post) alert w = (Some err, w2)"
  using notify_append[OF assms(1), of "callback # post"] assms(2) by simp

text \<open>
  Witness for C7: the first observer logs its name, the second throws, and the third
  is never reached.
\<close>

theorem notify_stops_at_first_throw_witness:
  "notifyAlertCallbacks ([observer_logs ''first''] @ observer_throws # [observer_logs ''third''])
     alert_demo [] = (Some (ExternalError ''observer failed''), [''first''])"
proof -
  have pre: "notifyAlertCallbacks [observer_logs ''first''] alert_demo [] = (None, [''first''])"
    by (simp add: observer_logs_def)
  have thr: "observer_throws alert_demo [''first''] =
               (Some (ExternalError ''observer failed''), [''first''])"
    by (simp add: observer_throws_def)
  show ?thesis
    by (rule notify_stops_at_first_throw[where callback = observer_throws, OF pre thr])
qed

text \<open>
  Counterexample to C7 as stated: the score of \<open>alice\<close> changes from 620 to 550 and
  \<open>checkCreditScore\<close> delivers the alert to three registered observers. The second one
  throws, and the third, which would have logged its name, is not invoked.
\<close>

theorem observer_after_throw_not_invoked:
  "alert_on_change
     (onAlert (observer_logs ''third'')
        (onAlert observer_throws (onAlert (observer_logs ''first'') [])))
     ''alice'' (Some 620) 550 1000 [] =
   (Some (ExternalError ''observer failed''), [''first''])"
  by (simp add: alert_on_change_def onAlert_def observer_logs_def observer_throws_def)

section \<open>Properties of the cache\<close>

lemma evictLeastValuable_config [simp]:
  "config_cache (evictLeastValuable t c) = config_cache c"
  by (simp add: evictLeastValuable_def split: option.splits)

lemma evict_loop_config:
  "evict_loop sz ticks c = Some c' \<Longrightarrow> config_cache c' = config_cache c"
proof (induction ticks arbitrary: c)
  case Nil
  then show ?case by (simp add: evict_loop.simps[of _ "[]"] split: if_splits)
next
  case (Cons t ts)
  show ?case
  proof (cases "totalSize (stats_cache c) + int sz > maxSize (config_cache c)")
    case True
    with Cons.prems have "evict_loop sz ts (evictLeastValuable t c) = Some c'"
      by (simp add: evict_loop.simps[of _ "t # ts"])
    from Cons.IH[OF this] show ?thesis by simp
  next
    case False
    with Cons.prems show ?thesis by (simp add: evict_loop.simps[of _ "t # ts"])
  qed
qed

lemma set_cache_stored:
  assumes "int (calculateSize stringify v) \<le> maxSize (config_cache c)"
    and "set_cache stringify key v ticks now c = Some c'"
  shows "map_of (cache c') key =
           Some \<lparr>data_item = v, timestamp_item = now, accessCount = 0, lastAccess = now,
                 size_item = calculateSize stringify v\<rparr>"
    and "config_cache c' = config_cache c"
  using assms
  by (auto simp: set_cache_def Let_def update_conv' split: option.splits dest: evict_loop_config)

lemma set_cache_returns:
  assumes "totalSize (stats_cache c) + int (calculateSize stringify v) \<le> maxSize (config_cache c)"
  shows "set_cache stringify key v ticks now c \<noteq> None"
  using assms by (simp add: set_cache_def Let_def evict_loop.simps[of _ ticks])

lemma get_cache_fresh:
  assumes "map_of (cache c) key = Some item" and "t - timestamp_item item \<le> maxAge (config_cache c)"
  shows "fst (get_cache key t c) = Some (data_item item)"
  using assms by (simp add: get_cache_def Let_def)

lemma get_cache_expired:
  assumes "map_of (cache c) key = Some item" and "t - timestamp_item item > maxAge (config_cache c)"
  shows "fst (get_cache key t c) = None" "map_of (cache (snd (get_cache key t c))) key = None"
  using assms by (simp_all add: get_cache_def Let_def delete_conv')

text \<open>
  C8. \<open>set\<close> leaves the cache as it is for a value whose computed size exceeds
  \<open>maxSize\<close>. For a value whose size is at most \<open>maxSize\<close>: \<open>set\<close> returns at once
  when the value fits beside the current total size, and whenever \<open>set\<close> returns, a
  \<open>get\<close> of the key at a time \<open>t\<close> with \<open>t - storedAt \<le> maxAge\<close> returns the value,
  while a \<open>get\<close> with \<open>t - storedAt > maxAge\<close> returns \<open>null\<close> and removes the entry.
\<close>

theorem cache_round_trip:
  "(int (calculateSize stringify v) > maxSize (config_cache c) \<longrightarrow>
      set_cache stringify key v ticks now c = Some c) \<and>
   (int (calculateSize stringify v) \<le> maxSize (config_cache c) \<longrightarrow>
      (totalSize (stats_cache c) + int (calculateSize stringify v) \<le> maxSize (config_cache c)
         \<longrightarrow> set_cache stringify key v ticks now c \<noteq> None) \<and>
      (\<forall>c'. set_cache stringify key v ticks now c = Some c' \<longrightarrow>
         (t - now \<le> maxAge (config_cache c) \<longrightarrow> fst (get_cache key t c') = Some v) \<and>
         (t - now > maxAge (config_cache c) \<longrightarrow>
            fst (get_cache key t c') = None \<and>
            map_of (cache (snd (get_cache key t c'))) key = None)))"
proof (intro conjI allI impI)
  assume "int (calculateSize stringify v) > maxSize (config_cache c)"
  then show "set_cache stringify key v ticks now c = Some c"
    by (simp add: set_cache_def Let_def)
next
  assume "totalSize (stats_cache c) + int (calculateSize stringify v) \<le> maxSize (config_cache c)"
  then show "set_cache stringify key v ticks now c \<noteq> None" by (rule set_cache_returns)
next
  fix c'
  assume fits: "int (calculateSize stringify v) \<le> maxSize (config_cache c)"
    and s: "set_cache stringify key v ticks now c = Some c'"
  note st = set_cache_stored[OF fits s]
  {
    assume "t - now \<le> maxAge (config_cache c)"
    with get_cache_fresh[OF st(1), of t] st(2)
    show "fst (get_cache key t c') = Some v" by simp
  }
  {
    assume "t - now > maxAge (config_cache c)"
    with get_cache_expired[OF st(1), of t] st(2)
    show "fst (get_cache key t c') = None"
      and "map_of (cache (snd (get_cache key t c'))) key = None" by simp_all
  }
qed

lemmas cache_demo_eval = tinyCacheConfig_def newSmartCache_def calculateSize_def

text \<open>
  Witness for C8: a fresh cache of at most 10 bytes. The value \<open>abcdef\<close> of size 12
  is not stored; the value \<open>abc\<close> of size 6 is stored at time 0, read back at 500
  and gone at 2000.
\<close>

theorem cache_round_trip_witness:
  "set_cache Some ''k'' ''abcdef'' [] 0 (newSmartCache tinyCacheConfig 0) =
     Some (newSmartCache tinyCacheConfig 0) \<and>
   set_cache Some ''k'' ''abc'' [] 0 (newSmartCache tinyCacheConfig 0) \<noteq> None \<and>
   map_option (\<lambda>c'. (fst (get_cache ''k'' 500 c'), fst (get_cache ''k'' 2000 c'),
                     map_option data_item (map_of (cache (snd (get_cache ''k'' 2000 c'))) ''k'')))
     (set_cache Some ''k'' ''abc'' [] 0 (newSmartCache tinyCacheConfig 0)) =
   Some (Some ''abc'', None, None)"
proof -
  let ?c = "newSmartCache tinyCacheConfig 0 :: string SmartCache"
  have fits: "int (calculateSize Some ''abc'') \<le> maxSize (config_cache ?c)"
    by (simp add: cache_demo_eval)
  have room: "totalSize (stats_cache ?c) + int (calculateSize Some ''abc'') \<le> maxSize (config_cache ?c)"
    by (simp add: cache_demo_eval)
  have age: "maxAge (config_cache ?c) = 1000" by (simp add: cache_demo_eval)
  have rt: "(totalSize (stats_cache ?c) + int (calculateSize Some ''abc'') \<le> maxSize (config_cache ?c)
               \<longrightarrow> set_cache Some ''k'' ''abc'' [] 0 ?c \<noteq> None) \<and>
            (\<forall>c'. set_cache Some ''k'' ''abc'' [] 0 ?c = Some c' \<longrightarrow>
               (t - 0 \<le> maxAge (config_cache ?c) \<longrightarrow> fst (get_cache ''k'' t c') = Some ''abc'') \<and>
               (t - 0 > maxAge (config_cache ?c) \<longrightarrow>
                  fst (get_cache ''k'' t c') = None \<and>
                  map_of (cache (snd (get_cache ''k'' t c'))) ''k'' = None))" for t
    using cache_round_trip[where stringify = Some and v = "''abc''" and c = ?c and key = "''k''"
            and ticks = "[]" and now = 0 and t = t] fits
    by blast
  from rt[of 500] room obtain c' where s: "set_cache Some ''k'' ''abc'' [] 0 ?c = Some c'"
    by auto
  from rt[of 500] s age have g1: "fst (get_cache ''k'' 500 c') = Some ''abc''" by simp
  from rt[of 2000] s age have g2: "fst (get_cache ''k'' 2000 c') = None"
    "map_of (cache (snd (get_cache ''k'' 2000 c'))) ''k'' = None" by simp_all
  have big: "int (calculateSize Some ''abcdef'') > maxSize (config_cache ?c)"
    by (simp add: cache_demo_eval)
  have over: "set_cache Some ''k'' ''abcdef'' [] 0 ?c = Some ?c"
    using cache_round_trip[where stringify = Some and v = "''abcdef''" and c = ?c
            and key = "''k''" and ticks = "[]" and now = 0 and t = 0] big
    by blast
  from over s g1 g2 show ?thesis by simp
qed

text \<open>
  Counterexample to C8 as stated: the value \<open>abcdef\<close> has size 12, above the 10 bytes
  of the cache; \<open>set\<close> returns without storing it and the immediate \<open>get\<close> is a miss.
\<close>

theorem oversize_value_not_cached:
  "map_option (\<lambda>c'. fst (get_cache ''k'' 0 c'))
     (set_cache Some ''k'' ''abcdef'' [] 0 (newSmartCache tinyCacheConfig 0)) = Some None"
  by (simp add: set_cache_def get_cache_def cache_demo_eval)

section \<open>Properties of the transaction queue\<close>

lemmas batch_eval =
  bp_demo_def drain_def processBatch_def fireTimers_def settle_def wallet_rejects_def
  sortQueue_def addTransaction_def newBatchProcessor_def defaultBatchConfig_def
  removeTransaction_def ref_before_def tx_before_def Let_def

text \<open>
  C9. With the default configuration (\<open>maxRetries = 3\<close>, \<open>retryDelay = 1000\<close>, drain
  every 5000 ms) and a wallet that rejects every submission, a transaction enqueued at
  time 0 is submitted once by the drain at 5000, twice by the drain at 10000 and four
  times by the drain at 15000: a failed transaction stays in the queue while its timeout
  pushes the same object again. It is submitted seven times before it is dropped; the
  delays set were 1000, 2000 and 3000 ms.
\<close>

theorem always_failing_submitted_seven_times:
  "submitted (drain wallet_rejects 5000 bp_demo) = [''tx1''] \<and>
   timers (drain wallet_rejects 5000 bp_demo) = [(6000, 0)] \<and>
   queue (drain wallet_rejects 5000 bp_demo) = [0] \<and>
   submitted (drain wallet_rejects 10000 (drain wallet_rejects 5000 bp_demo)) =
     replicate 3 ''tx1'' \<and>
   timers (drain wallet_rejects 10000 (drain wallet_rejects 5000 bp_demo)) =
     [(12000, 0), (13000, 0)] \<and>
   submitted (drain wallet_rejects 15000 (drain wallet_rejects 10000
     (drain wallet_rejects 5000 bp_demo))) = replicate 7 ''tx1'' \<and>
   queue (drain wallet_rejects 15000 (drain wallet_rejects 10000
     (drain wallet_rejects 5000 bp_demo))) = []"
  by (simp add: batch_eval numeral_eq_Suc)

end
